theory Spec2Isabelle
  imports Main "HOL-Library.Word"
begin

unbundle bit_operations_syntax

section \<open>Bytes, strings and run-time panics\<close>

text \<open>
  A Go \<open>byte\<close> is an 8-bit word, a \<open>[]byte\<close> a list of them. A Go \<open>string\<close> is a
  sequence of bytes too; it is modelled as a HOL \<open>string\<close> (a list of 8-bit characters),
  and \<open>[]byte(s)\<close> and \<open>string(b)\<close> convert elementwise.
\<close>

type_synonym byte = "8 word"

definition byte_of_char :: "char \<Rightarrow> byte" where
  "byte_of_char c = of_nat (of_char c)"

definition char_of_byte :: "byte \<Rightarrow> char" where
  "char_of_byte b = char_of (unat b)"

text \<open>
  A slice expression \<open>s[:n]\<close> or \<open>s[n:]\<close> with \<open>n\<close> outside \<open>0..len(s)\<close> panics at run
  time; the panic carries the offending index and the length. So does \<open>make([]byte, n)\<close>
  with a length that cannot be allocated.
\<close>

datatype panic = SliceBoundsOutOfRange int nat | MakeSliceLenOutOfRange nat

definition sliceTo :: "string \<Rightarrow> int \<Rightarrow> panic + string" where
  "sliceTo s n =
     (if 0 \<le> n \<and> n \<le> int (length s) then Inr (take (nat n) s)
      else Inl (SliceBoundsOutOfRange n (length s)))"

definition sliceFrom :: "string \<Rightarrow> int \<Rightarrow> panic + string" where
  "sliceFrom s n =
     (if 0 \<le> n \<and> n \<le> int (length s) then Inr (drop (nat n) s)
      else Inl (SliceBoundsOutOfRange n (length s)))"

section \<open>Key-to-path layout (storage adapter)\<close>

text \<open>
  \<open>hex.EncodeToString\<close>: two lower-case hex digits per byte, the high nibble first.
\<close>

definition hextable :: string where
  "hextable = ''0123456789abcdef''"

fun EncodeToString :: "byte list \<Rightarrow> string" where
  "EncodeToString [] = []"
| "EncodeToString (v # src) =
     hextable ! unat (drop_bit 4 v) # hextable ! unat (v AND 0x0f) # EncodeToString src"

definition sha256HexSize :: int where
  "sha256HexSize = 64"

text \<open>
  \<open>storageClient.keyToPath\<close>, as a function of the layout string and the key. The
  \<open>switch\<close> on the layout has the cases \<open>"flat"\<close>, \<open>"bazel"\<close> and \<open>default\<close>.
\<close>

definition keyToPath :: "string \<Rightarrow> byte list \<Rightarrow> panic + string" where
  "keyToPath layout key =
     (let keyHex = EncodeToString key in
      if layout = ''flat'' then Inr keyHex
      else if layout = ''bazel'' then
        (if int (length keyHex) \<ge> sha256HexSize then
           (case sliceTo keyHex sha256HexSize of
              Inl p \<Rightarrow> Inl p
            | Inr h \<Rightarrow> Inr (''ac/'' @ h))
         else
           (case sliceTo keyHex (sha256HexSize - int (length keyHex)) of
              Inl p \<Rightarrow> Inl p
            | Inr pad \<Rightarrow> Inr (''ac/'' @ keyHex @ pad)))
      else
        (if length keyHex < 2 then Inr keyHex
         else
           (case sliceTo keyHex 2 of
              Inl p \<Rightarrow> Inl p
            | Inr dir \<Rightarrow>
                (case sliceFrom keyHex 2 of
                   Inl p \<Rightarrow> Inl p
                 | Inr rest \<Rightarrow> Inr (dir @ ''/'' @ rest)))))"

section \<open>Errors\<close>

text \<open>
  A Go \<open>error\<close> value: the two sentinel errors of package \<open>io\<close>, the error the storage
  adapter builds with \<open>fmt.Errorf("HTTP %d", resp.StatusCode)\<close>, and any other error
  (of the connection or of the HTTP client), which is known by its message only.
\<close>

datatype error = EOF | ErrUnexpectedEOF | HTTPError int | OtherError string

text \<open>Decimal digits of a natural number, and \<open>%d\<close> of an \<open>int\<close>.\<close>

fun digits :: "nat \<Rightarrow> string" where
  "digits n =
     (if n < 10 then [char_of (48 + n)]
      else digits (n div 10) @ [char_of (48 + n mod 10)])"

definition fmt_d :: "int \<Rightarrow> string" where
  "fmt_d i = (if i < 0 then ''-'' @ digits (nat (- i)) else digits (nat i))"

text \<open>The method \<open>Error()\<close>: the message of an error.\<close>

fun Error :: "error \<Rightarrow> string" where
  "Error EOF = ''EOF''"
| "Error ErrUnexpectedEOF = ''unexpected EOF''"
| "Error (HTTPError code) = ''HTTP '' @ fmt_d code"
| "Error (OtherError msg) = msg"

section \<open>The connection\<close>

text \<open>
  One connection, an \<open>io.ReadWriter\<close>: \<open>rd\<close> holds the bytes the peer sends before it
  closes its side (reading past them is \<open>io.EOF\<close>), \<open>wr\<close> the bytes written to the peer
  so far. \<open>wcap\<close> is how many more bytes the peer accepts before writes fail
  (\<open>None\<close>: writes never fail).
\<close>

record conn =
  rd :: "byte list"
  wr :: "byte list"
  wcap :: "nat option"

definition Write :: "byte list \<Rightarrow> conn \<Rightarrow> error option \<times> conn" where
  "Write p c =
     (case wcap c of
        None \<Rightarrow> (None, c\<lparr>wr := wr c @ p\<rparr>)
      | Some n \<Rightarrow>
          if length p \<le> n then (None, c\<lparr>wr := wr c @ p, wcap := Some (n - length p)\<rparr>)
          else (Some (OtherError ''write: broken pipe''),
                c\<lparr>wr := wr c @ take n p, wcap := Some 0\<rparr>))"

text \<open>
  \<open>io.ReadFull(r, buf)\<close> with \<open>len(buf) = n\<close>: exactly \<open>n\<close> bytes, or \<open>io.EOF\<close> when
  no byte could be read, or \<open>io.ErrUnexpectedEOF\<close> after some but not all. With \<open>n = 0\<close> it
  returns at once without error.
\<close>

definition ReadFull :: "nat \<Rightarrow> conn \<Rightarrow> (error + byte list) \<times> conn" where
  "ReadFull n c =
     (if n \<le> length (rd c) then (Inr (take n (rd c)), c\<lparr>rd := drop n (rd c)\<rparr>)
      else if rd c = [] then (Inl EOF, c)
      else (Inl ErrUnexpectedEOF, c\<lparr>rd := []\<rparr>))"

section \<open>Protocol codec\<close>

definition protocolVersion :: byte where "protocolVersion = 0x01"
definition cap0 :: byte where "cap0 = 0x00"

definition requestGet :: byte where "requestGet = 0x00"
definition requestPut :: byte where "requestPut = 0x01"
definition requestRemove :: byte where "requestRemove = 0x02"
definition requestStop :: byte where "requestStop = 0x03"

definition responseOK :: byte where "responseOK = 0x00"
definition responseNoop :: byte where "responseNoop = 0x01"
definition responseErr :: byte where "responseErr = 0x02"

definition putFlagOverwrite :: byte where "putFlagOverwrite = 0x01"

definition writeByte :: "byte \<Rightarrow> conn \<Rightarrow> error option \<times> conn" where
  "writeByte b w = Write [b] w"

definition readByte :: "conn \<Rightarrow> (error + byte) \<times> conn" where
  "readByte r =
     (case ReadFull 1 r of
        (Inl err, r') \<Rightarrow> (Inl err, r')
      | (Inr buf, r') \<Rightarrow> (Inr (buf ! 0), r'))"

text \<open>The loop \<open>for _, cap := range caps\<close> of writeGreeting.\<close>

fun writeCaps :: "byte list \<Rightarrow> conn \<Rightarrow> error option \<times> conn" where
  "writeCaps [] w = (None, w)"
| "writeCaps (cap # caps) w =
     (case writeByte cap w of
        (Some err, w') \<Rightarrow> (Some err, w')
      | (None, w') \<Rightarrow> writeCaps caps w')"

definition writeGreeting :: "conn \<Rightarrow> error option \<times> conn" where
  "writeGreeting w =
     (case writeByte protocolVersion w of
        (Some err, w1) \<Rightarrow> (Some err, w1)
      | (None, w1) \<Rightarrow>
          (let caps = [cap0] in
           case writeByte (of_nat (length caps)) w1 of
             (Some err, w2) \<Rightarrow> (Some err, w2)
           | (None, w2) \<Rightarrow> writeCaps caps w2))"

definition readRequest :: "conn \<Rightarrow> (error + byte) \<times> conn" where
  "readRequest r =
     (case readByte r of
        (Inl err, r') \<Rightarrow> (Inl err, r')
      | (Inr reqType, r') \<Rightarrow> (Inr reqType, r'))"

definition readKey :: "conn \<Rightarrow> (error + byte list) \<times> conn" where
  "readKey r =
     (case readByte r of
        (Inl err, r1) \<Rightarrow> (Inl err, r1)
      | (Inr keyLen, r1) \<Rightarrow>
          (case ReadFull (unat keyLen) r1 of
             (Inl err, r2) \<Rightarrow> (Inl err, r2)
           | (Inr key, r2) \<Rightarrow> (Inr key, r2)))"

text \<open>
  \<open>binary.NativeEndian\<close> is the byte order of the platform the helper is built for; the
  model takes it as a parameter. A \<open>uint64\<close> is written as its 8 bytes in that order:
  byte \<open>i\<close> (from the least significant) is \<open>byte(v >> (8*i))\<close>.
\<close>

datatype ByteOrder = LittleEndian | BigEndian

fun le_bytes :: "nat \<Rightarrow> nat \<Rightarrow> byte list" where
  "le_bytes 0 v = []"
| "le_bytes (Suc k) v = of_nat v # le_bytes k (v div 256)"

fun le_value :: "byte list \<Rightarrow> nat" where
  "le_value [] = 0"
| "le_value (b # bs) = unat b + 256 * le_value bs"

definition PutUint64 :: "ByteOrder \<Rightarrow> 64 word \<Rightarrow> byte list" where
  "PutUint64 order v =
     (case order of
        LittleEndian \<Rightarrow> le_bytes 8 (unat v)
      | BigEndian \<Rightarrow> rev (le_bytes 8 (unat v)))"

definition Uint64 :: "ByteOrder \<Rightarrow> byte list \<Rightarrow> 64 word" where
  "Uint64 order bs =
     (case order of
        LittleEndian \<Rightarrow> of_nat (le_value bs)
      | BigEndian \<Rightarrow> of_nat (le_value (rev bs)))"

text \<open>
  \<open>make([]byte, n)\<close> with a \<open>uint64\<close> length panics in the runtime when the length is
  beyond what can be allocated (on 64-bit platforms \<open>1 << 48\<close> bytes); every slice that
  exists is at most that long.
\<close>

definition maxAlloc :: nat where
  "maxAlloc = 2 ^ 48"

definition makeBytes :: "64 word \<Rightarrow> panic + nat" where
  "makeBytes n = (if unat n \<le> maxAlloc then Inr (unat n) else Inl (MakeSliceLenOutOfRange (unat n)))"

text \<open>
  The result of an operation that can panic or return an error: \<open>Inl\<close> a panic (the
  process crashes), \<open>Inr (Inl err)\<close> an error return, \<open>Inr (Inr x)\<close> a result.
\<close>

type_synonym 'a result = "panic + error + 'a"

definition readValue :: "ByteOrder \<Rightarrow> conn \<Rightarrow> byte list result \<times> conn" where
  "readValue order r =
     (case ReadFull 8 r of
        (Inl err, r1) \<Rightarrow> (Inr (Inl err), r1)
      | (Inr bs, r1) \<Rightarrow>
          (let valueLen = Uint64 order bs in
           case makeBytes valueLen of
             Inl p \<Rightarrow> (Inl p, r1)
           | Inr n \<Rightarrow>
               (case ReadFull n r1 of
                  (Inl err, r2) \<Rightarrow> (Inr (Inl err), r2)
                | (Inr v, r2) \<Rightarrow> (Inr (Inr v), r2))))"

definition writeOK :: "conn \<Rightarrow> error option \<times> conn" where
  "writeOK w = writeByte responseOK w"

definition writeNoop :: "conn \<Rightarrow> error option \<times> conn" where
  "writeNoop w = writeByte responseNoop w"

definition writeValue :: "ByteOrder \<Rightarrow> byte list \<Rightarrow> conn \<Rightarrow> error option \<times> conn" where
  "writeValue order v w =
     (let valueLen = (of_nat (length v) :: 64 word) in
      case Write (PutUint64 order valueLen) w of
        (Some err, w1) \<Rightarrow> (Some err, w1)
      | (None, w1) \<Rightarrow> Write v w1)"

definition writeMsg :: "string \<Rightarrow> conn \<Rightarrow> error option \<times> conn" where
  "writeMsg msg0 w =
     (let msg = (if length msg0 > 255 then take 255 msg0 else msg0) in
      case writeByte (of_nat (length msg)) w of
        (Some err, w1) \<Rightarrow> (Some err, w1)
      | (None, w1) \<Rightarrow> Write (map byte_of_char msg) w1)"

definition writeErr :: "string \<Rightarrow> conn \<Rightarrow> error option \<times> conn" where
  "writeErr msg w =
     (case writeByte responseErr w of
        (Some err, w1) \<Rightarrow> (Some err, w1)
      | (None, w1) \<Rightarrow> writeMsg msg w1)"

definition readMsg :: "conn \<Rightarrow> (error + string) \<times> conn" where
  "readMsg r =
     (case readByte r of
        (Inl err, r1) \<Rightarrow> (Inl err, r1)
      | (Inr msgLen, r1) \<Rightarrow>
          (case ReadFull (unat msgLen) r1 of
             (Inl err, r2) \<Rightarrow> (Inl err, r2)
           | (Inr msg, r2) \<Rightarrow> (Inr (map char_of_byte msg), r2)))"

text \<open>
  Modelled from the spec: the encoder of a key, which is the client's and not in this
  repository. A key goes on the wire as \<open>keyLen:u8\<close> followed by \<open>keyLen\<close> key bytes.
\<close>

definition encodeKey :: "byte list \<Rightarrow> byte list" where
  "encodeKey key = of_nat (length key) # key"

text \<open>A fresh connection on which nothing was sent or received and writes never fail.\<close>

definition pipe :: conn where
  "pipe = \<lparr>rd = [], wr = [], wcap = None\<rparr>"

text \<open>The bytes a call appended to a connection's output.\<close>

definition written :: "conn \<Rightarrow> conn \<Rightarrow> byte list" where
  "written w w' = drop (length (wr w)) (wr w')"

section \<open>Storage adapter: HTTP requests\<close>

text \<open>
  The parts of \<open>net/url\<close> and \<open>net/http\<close> the adapter uses. A \<open>url.URL\<close> is known by
  the fields below; a request by its method, URL, headers and body; a response by its
  status code and by what reading its body to the end gives (the bytes, or an error).
  \<open>http.Header\<close> maps a canonical header name to its value: every entry here is made by
  \<open>Header.Set\<close>, which replaces the values of the name by one value.
\<close>

record url =
  Scheme :: string
  Host :: string
  Path :: string

record request =
  Method :: string
  URL :: string
  Header :: "string \<rightharpoonup> string"
  ReqBody :: "byte list"

record response =
  StatusCode :: int
  Body :: "error + byte list"

text \<open>
  What the adapter takes from its surroundings: \<open>URLString\<close> is \<open>url.URL.String\<close>;
  \<open>parseURL\<close> is the error (if any) with which \<open>http.NewRequest\<close> rejects a URL string;
  \<open>CanonicalMIMEHeaderKey\<close> is the canonical form \<open>Header.Set\<close> stores a name under;
  \<open>RoundTrip\<close> is the remote server together with the HTTP client's transport: given a
  request and the server's state, a transport error or a response, and the new state.
\<close>

record 'b httpEnv =
  URLString :: "url \<Rightarrow> string"
  parseURL :: "string \<Rightarrow> error option"
  CanonicalMIMEHeaderKey :: "string \<Rightarrow> string"
  RoundTrip :: "request \<Rightarrow> 'b \<Rightarrow> (error + response) \<times> 'b"

text \<open>
  The world outside the process: the remote server's state, and the requests handed to
  \<open>client.Do\<close> so far, in order.
\<close>

record 'b world =
  backend :: 'b
  sent :: "request list"

text \<open>
  \<open>storageClient\<close>. The Go map \<open>headers\<close> has distinct keys and is iterated in an order
  the runtime chooses: the list is the entries in the order of one iteration.
\<close>

record storageClient =
  baseURL :: url
  layout :: string
  bearerToken :: string
  headers :: "(string \<times> string) list"

definition StatusOK :: int where "StatusOK = 200"
definition StatusNotFound :: int where "StatusNotFound = 404"

definition HasSuffix :: "string \<Rightarrow> string \<Rightarrow> bool" where
  "HasSuffix s suffix =
     (length suffix \<le> length s \<and> drop (length s - length suffix) s = suffix)"

definition NewRequest ::
  "'b httpEnv \<Rightarrow> string \<Rightarrow> string \<Rightarrow> byte list \<Rightarrow> error + request" where
  "NewRequest env meth urlStr body =
     (case parseURL env urlStr of
        Some err \<Rightarrow> Inl err
      | None \<Rightarrow> Inr \<lparr>Method = meth, URL = urlStr, Header = Map.empty, ReqBody = body\<rparr>)"

definition HeaderSet :: "'b httpEnv \<Rightarrow> string \<Rightarrow> string \<Rightarrow> request \<Rightarrow> request" where
  "HeaderSet env k v req = req\<lparr>Header := (Header req)(CanonicalMIMEHeaderKey env k \<mapsto> v)\<rparr>"

definition Do :: "'b httpEnv \<Rightarrow> request \<Rightarrow> 'b world \<Rightarrow> (error + response) \<times> 'b world" where
  "Do env req w =
     (case RoundTrip env req (backend w) of
        (res, b') \<Rightarrow> (res, \<lparr>backend = b', sent = sent w @ [req]\<rparr>))"

definition buildURL :: "'b httpEnv \<Rightarrow> storageClient \<Rightarrow> byte list \<Rightarrow> panic + string" where
  "buildURL env s key =
     (let base = baseURL s in
      case keyToPath (layout s) key of
        Inl p \<Rightarrow> Inl p
      | Inr path \<Rightarrow>
          Inr (URLString env
            (if HasSuffix (Path base) ''/'' then base\<lparr>Path := Path base @ path\<rparr>
             else if Path base = [] then base\<lparr>Path := ''/'' @ path\<rparr>
             else base\<lparr>Path := Path base @ ''/'' @ path\<rparr>)))"

definition addHeaders :: "'b httpEnv \<Rightarrow> storageClient \<Rightarrow> request \<Rightarrow> request" where
  "addHeaders env s req =
     fold (\<lambda>(k, v) r. HeaderSet env k v r) (headers s)
       (if bearerToken s \<noteq> [] then
          HeaderSet env ''Authorization'' (''Bearer '' @ bearerToken s) req
        else req)"

definition get ::
  "'b httpEnv \<Rightarrow> storageClient \<Rightarrow> byte list \<Rightarrow> 'b world \<Rightarrow> (byte list \<times> bool) result \<times> 'b world"
  where
  "get env s key w =
     (case buildURL env s key of
        Inl p \<Rightarrow> (Inl p, w)
      | Inr urlStr \<Rightarrow>
          (case NewRequest env ''GET'' urlStr [] of
             Inl err \<Rightarrow> (Inr (Inl err), w)
           | Inr req \<Rightarrow>
               (case Do env (addHeaders env s req) w of
                  (Inl err, w1) \<Rightarrow> (Inr (Inl err), w1)
                | (Inr resp, w1) \<Rightarrow>
                    if StatusCode resp = StatusNotFound then (Inr (Inr ([], False)), w1)
                    else if StatusCode resp \<noteq> StatusOK then
                      (Inr (Inl (HTTPError (StatusCode resp))), w1)
                    else
                      (case Body resp of
                         Inl err \<Rightarrow> (Inr (Inl err), w1)
                       | Inr v \<Rightarrow> (Inr (Inr (v, True)), w1)))))"

definition exists ::
  "'b httpEnv \<Rightarrow> storageClient \<Rightarrow> string \<Rightarrow> 'b world \<Rightarrow> (error + bool) \<times> 'b world" where
  "exists env s urlStr w =
     (case NewRequest env ''HEAD'' urlStr [] of
        Inl err \<Rightarrow> (Inl err, w)
      | Inr req \<Rightarrow>
          (case Do env (addHeaders env s req) w of
             (Inl err, w1) \<Rightarrow> (Inl err, w1)
           | (Inr resp, w1) \<Rightarrow> (Inr (StatusCode resp = StatusOK), w1)))"





section \<open>Request dispatcher\<close>

text \<open>
  The interface \<open>storage\<close> of protocol.go, over any state \<open>'w\<close> of the storage, and the
  storage adapter as an instance of it.
\<close>

record 'w storage =
  storage_get :: "byte list \<Rightarrow> 'w \<Rightarrow> (byte list \<times> bool) result \<times> 'w"
  storage_put :: "byte list \<Rightarrow> byte list \<Rightarrow> bool \<Rightarrow> 'w \<Rightarrow> bool result \<times> 'w"
  storage_remove :: "byte list \<Rightarrow> 'w \<Rightarrow> bool result \<times> 'w"


text \<open>
  A handler returns \<open>Inl\<close> a panic, or \<open>Inr\<close> its error return (\<open>None\<close> for \<open>nil\<close>),
  with the connection and the storage state it leaves. The logger has no effect on the
  connection or the storage and is left out.
\<close>

definition handleGet ::
  "ByteOrder \<Rightarrow> 'w storage \<Rightarrow> conn \<Rightarrow> 'w \<Rightarrow> (panic + error option) \<times> conn \<times> 'w" where
  "handleGet order s c w =
     (case readKey c of
        (Inl err, c1) \<Rightarrow> (Inr (Some err), c1, w)
      | (Inr key, c1) \<Rightarrow>
          (case storage_get s key w of
             (Inl p, w1) \<Rightarrow> (Inl p, c1, w1)
           | (Inr (Inl err), w1) \<Rightarrow>
               (case writeErr (Error err) c1 of (e, c2) \<Rightarrow> (Inr e, c2, w1))
           | (Inr (Inr (v, found)), w1) \<Rightarrow>
               if \<not> found then (case writeNoop c1 of (e, c2) \<Rightarrow> (Inr e, c2, w1))
               else
                 (case writeOK c1 of
                    (Some err, c2) \<Rightarrow> (Inr (Some err), c2, w1)
                  | (None, c2) \<Rightarrow>
                      (case writeValue order v c2 of (e, c3) \<Rightarrow> (Inr e, c3, w1)))))"

definition handlePut ::
  "ByteOrder \<Rightarrow> 'w storage \<Rightarrow> conn \<Rightarrow> 'w \<Rightarrow> (panic + error option) \<times> conn \<times> 'w" where
  "handlePut order s c w =
     (case readKey c of
        (Inl err, c1) \<Rightarrow> (Inr (Some err), c1, w)
      | (Inr key, c1) \<Rightarrow>
          (case readByte c1 of
             (Inl err, c2) \<Rightarrow> (Inr (Some err), c2, w)
           | (Inr flags, c2) \<Rightarrow>
               (case readValue order c2 of
                  (Inl p, c3) \<Rightarrow> (Inl p, c3, w)
                | (Inr (Inl err), c3) \<Rightarrow> (Inr (Some err), c3, w)
                | (Inr (Inr v), c3) \<Rightarrow>
                    (let overwrite = ((flags AND putFlagOverwrite) \<noteq> 0) in
                     case storage_put s key v overwrite w of
                       (Inl p, w1) \<Rightarrow> (Inl p, c3, w1)
                     | (Inr (Inl err), w1) \<Rightarrow>
                         (case writeErr (Error err) c3 of (e, c4) \<Rightarrow> (Inr e, c4, w1))
                     | (Inr (Inr stored), w1) \<Rightarrow>
                         if \<not> stored then
                           (case writeNoop c3 of (e, c4) \<Rightarrow> (Inr e, c4, w1))
                         else (case writeOK c3 of (e, c4) \<Rightarrow> (Inr e, c4, w1))))))"

definition handleRemove ::
  "'w storage \<Rightarrow> conn \<Rightarrow> 'w \<Rightarrow> (panic + error option) \<times> conn \<times> 'w" where
  "handleRemove s c w =
     (case readKey c of
        (Inl err, c1) \<Rightarrow> (Inr (Some err), c1, w)
      | (Inr key, c1) \<Rightarrow>
          (case storage_remove s key w of
             (Inl p, w1) \<Rightarrow> (Inl p, c1, w1)
           | (Inr (Inl err), w1) \<Rightarrow>
               (case writeErr (Error err) c1 of (e, c2) \<Rightarrow> (Inr e, c2, w1))
           | (Inr (Inr removed), w1) \<Rightarrow>
               if \<not> removed then (case writeNoop c1 of (e, c2) \<Rightarrow> (Inr e, c2, w1))
               else (case writeOK c1 of (e, c2) \<Rightarrow> (Inr e, c2, w1))))"

definition handleStop :: "conn \<Rightarrow> error option \<times> conn" where
  "handleStop c = writeOK c"

text \<open>\<open>fmt.Sprintf("%02x", b)\<close> of a byte: its two lower-case hex digits.\<close>

definition fmt_02x :: "byte \<Rightarrow> string" where
  "fmt_02x b = [hextable ! unat (drop_bit 4 b), hextable ! unat (b AND 0x0f)]"

text \<open>
  \<open>processRequest\<close> returns \<open>(stop, err)\<close>, or panics. The \<open>switch\<close> has the four
  request types and \<open>default\<close>.
\<close>

definition processRequest ::
  "ByteOrder \<Rightarrow> 'w storage \<Rightarrow> conn \<Rightarrow> 'w \<Rightarrow> (panic + bool \<times> error option) \<times> conn \<times> 'w"
  where
  "processRequest order s c w =
     (case readRequest c of
        (Inl err, c1) \<Rightarrow> (Inr (False, Some err), c1, w)
      | (Inr reqType, c1) \<Rightarrow>
          if reqType = requestGet then
            (case handleGet order s c1 w of
               (Inl p, c2, w1) \<Rightarrow> (Inl p, c2, w1)
             | (Inr (Some err), c2, w1) \<Rightarrow> (Inr (False, Some err), c2, w1)
             | (Inr None, c2, w1) \<Rightarrow> (Inr (False, None), c2, w1))
          else if reqType = requestPut then
            (case handlePut order s c1 w of
               (Inl p, c2, w1) \<Rightarrow> (Inl p, c2, w1)
             | (Inr (Some err), c2, w1) \<Rightarrow> (Inr (False, Some err), c2, w1)
             | (Inr None, c2, w1) \<Rightarrow> (Inr (False, None), c2, w1))
          else if reqType = requestRemove then
            (case handleRemove s c1 w of
               (Inl p, c2, w1) \<Rightarrow> (Inl p, c2, w1)
             | (Inr (Some err), c2, w1) \<Rightarrow> (Inr (False, Some err), c2, w1)
             | (Inr None, c2, w1) \<Rightarrow> (Inr (False, None), c2, w1))
          else if reqType = requestStop then
            (case handleStop c1 of
               (Some err, c2) \<Rightarrow> (Inr (False, Some err), c2, w)
             | (None, c2) \<Rightarrow> (Inr (True, None), c2, w))
          else
            (case writeErr (''unknown request type: 0x'' @ fmt_02x reqType) c1 of
               (e, c2) \<Rightarrow> (Inr (False, e), c2, w)))"

section \<open>Server: idle timer and cancellation\<close>

text \<open>
  The fields of \<open>ipcServer\<close> that the idle timer and the shutdown touch. \<open>IdleTimeout\<close>
  is the configured \<open>time.Duration\<close>. The runtime's timers are a list: \<open>time.AfterFunc\<close>
  appends an armed one and returns its position, which \<open>idleTimer\<close> points to
  (\<open>None\<close> for \<open>nil\<close>). \<open>cancelled\<close> says whether the server's context is done.
  The only function ever given to \<open>AfterFunc\<close> is the one that calls \<open>cancel\<close>.
\<close>

datatype timer = Armed int | Stopped | Fired

record ipcServer =
  IdleTimeout :: int
  idleTimer :: "nat option"
  timers :: "timer list"
  cancelled :: bool

definition newServer :: "int \<Rightarrow> ipcServer" where
  "newServer timeout = \<lparr>IdleTimeout = timeout, idleTimer = None, timers = [], cancelled = False\<rparr>"

definition cancel :: "ipcServer \<Rightarrow> ipcServer" where
  "cancel s = s\<lparr>cancelled := True\<rparr>"

definition Stop :: "nat \<Rightarrow> ipcServer \<Rightarrow> ipcServer" where
  "Stop t s =
     (if t < length (timers s) then
        (case timers s ! t of
           Armed d \<Rightarrow> s\<lparr>timers := (timers s)[t := Stopped]\<rparr>
         | Stopped \<Rightarrow> s
         | Fired \<Rightarrow> s)
      else s)"

definition AfterFunc :: "int \<Rightarrow> ipcServer \<Rightarrow> nat \<times> ipcServer" where
  "AfterFunc d s = (length (timers s), s\<lparr>timers := timers s @ [Armed d]\<rparr>)"

definition resetIdleTimer :: "ipcServer \<Rightarrow> ipcServer" where
  "resetIdleTimer s =
     (if IdleTimeout s = 0 then s
      else
        (let s1 = (case idleTimer s of None \<Rightarrow> s | Some t \<Rightarrow> Stop t s) in
         case AfterFunc (IdleTimeout s1) s1 of
           (t', s2) \<Rightarrow> s2\<lparr>idleTimer := Some t'\<rparr>))"

text \<open>The runtime runs the function of an armed timer whose duration has passed.\<close>

definition expire :: "nat \<Rightarrow> ipcServer \<Rightarrow> ipcServer" where
  "expire t s =
     (if t < length (timers s) then
        (case timers s ! t of
           Armed d \<Rightarrow> cancel (s\<lparr>timers := (timers s)[t := Fired]\<rparr>)
         | Stopped \<Rightarrow> s
         | Fired \<Rightarrow> s)
      else s)"

text \<open>
  What happens to the server while it runs, one event at a time: the accept loop accepts a
  connection; a connection handler has processed a request that is no stop request; a
  handler has processed a stop request; the duration of timer \<open>t\<close> has passed. \<open>run\<close>
  resets the idle timer once before the accept loop starts.
\<close>

datatype event = Accepted | Processed | StopRequest | Elapsed nat

fun step :: "event \<Rightarrow> ipcServer \<Rightarrow> ipcServer" where
  "step Accepted s = resetIdleTimer s"
| "step Processed s = resetIdleTimer s"
| "step StopRequest s = cancel s"
| "step (Elapsed t) s = expire t s"

definition run :: "int \<Rightarrow> event list \<Rightarrow> ipcServer" where
  "run timeout evs = fold step evs (resetIdleTimer (newServer timeout))"

section \<open>An example environment\<close>

text \<open>
  A backend that answers from a script: each request gets the next response of the list,
  whatever it asks, and a transport error once the list is used up. URLs are rendered
  plainly, every URL string is accepted, and header names are taken to be in canonical
  form already. An example configuration of the adapter goes with it.
\<close>

definition scriptedEnv :: "response list httpEnv" where
  "scriptedEnv =
     \<lparr>URLString = (\<lambda>u. Scheme u @ ''://'' @ Host u @ Path u),
      parseURL = (\<lambda>urlStr. None),
      CanonicalMIMEHeaderKey = (\<lambda>k. k),
      RoundTrip = (\<lambda>req b. case b of
                      [] \<Rightarrow> (Inl (OtherError ''connection refused''), [])
                    | resp # rest \<Rightarrow> (Inr resp, rest))\<rparr>"

definition exampleClient :: storageClient where
  "exampleClient =
     \<lparr>baseURL = \<lparr>Scheme = ''http'', Host = ''h'', Path = ''/cache''\<rparr>,
      layout = ''subdirs'',
      bearerToken = ''secret'',
      headers = [(''Content-Type'', ''text/plain''), (''X-Cache'', ''ccache'')]\<rparr>"

section \<open>Connection handler\<close>

text \<open>
  A call that returns without error leaves the unread input no longer than it found it,
  and \<open>processRequest\<close> consumes at least the type byte: this is why the request loop of
  a connection ends.
\<close>

lemma Write_rd: "Write p c = (e, c') \<Longrightarrow> rd c' = rd c"
  by (auto simp: Write_def split: option.splits if_splits)

lemma writeByte_rd: "writeByte b c = (e, c') \<Longrightarrow> rd c' = rd c"
  by (simp add: writeByte_def Write_rd)

lemma writeOK_rd: "writeOK c = (e, c') \<Longrightarrow> rd c' = rd c"
  by (simp add: writeOK_def writeByte_rd)

lemma writeNoop_rd: "writeNoop c = (e, c') \<Longrightarrow> rd c' = rd c"
  by (simp add: writeNoop_def writeByte_rd)

lemma writeMsg_rd: "writeMsg msg c = (e, c') \<Longrightarrow> rd c' = rd c"
  unfolding writeMsg_def Let_def
  by (auto split: prod.splits option.splits dest!: writeByte_rd Write_rd)

lemma writeErr_rd: "writeErr msg c = (e, c') \<Longrightarrow> rd c' = rd c"
  unfolding writeErr_def
  by (auto split: prod.splits option.splits dest!: writeByte_rd writeMsg_rd)

lemma writeValue_rd: "writeValue order v c = (e, c') \<Longrightarrow> rd c' = rd c"
  unfolding writeValue_def Let_def
  by (auto split: prod.splits option.splits dest!: Write_rd)

lemma ReadFull_rd: "ReadFull n c = (x, c') \<Longrightarrow> length (rd c') \<le> length (rd c)"
  by (auto simp: ReadFull_def split: if_splits)

lemma readByte_rd: "readByte c = (Inr b, c') \<Longrightarrow> length (rd c') < length (rd c)"
  by (auto simp: readByte_def ReadFull_def split: if_splits)

lemma readByte_rd_le: "readByte c = (x, c') \<Longrightarrow> length (rd c') \<le> length (rd c)"
  by (auto simp: readByte_def ReadFull_def split: if_splits)

lemma readKey_rd: "readKey c = (x, c') \<Longrightarrow> length (rd c') \<le> length (rd c)"
  unfolding readKey_def
  by (fastforce split: prod.splits sum.splits dest: readByte_rd_le ReadFull_rd)

lemma readValue_rd: "readValue order c = (x, c') \<Longrightarrow> length (rd c') \<le> length (rd c)"
  unfolding readValue_def Let_def
  by (fastforce split: prod.splits sum.splits dest: ReadFull_rd)

lemma handleGet_rd: "handleGet order s c w = (x, c', w') \<Longrightarrow> length (rd c') \<le> length (rd c)"
  unfolding handleGet_def
  by (auto split: prod.splits sum.splits option.splits if_splits
      dest!: readKey_rd writeErr_rd writeNoop_rd writeOK_rd writeValue_rd)

lemma handlePut_rd: "handlePut order s c w = (x, c', w') \<Longrightarrow> length (rd c') \<le> length (rd c)"
proof -
  assume a: "handlePut order s c w = (x, c', w')"
  obtain k c1 where k: "readKey c = (k, c1)" by (cases "readKey c")
  obtain f c2 where f: "readByte c1 = (f, c2)" by (cases "readByte c1")
  obtain v c3 where v: "readValue order c2 = (v, c3)" by (cases "readValue order c2")
  have c1: "length (rd c1) \<le> length (rd c)" using k by (rule readKey_rd)
  have c2: "length (rd c2) \<le> length (rd c1)" using f by (rule readByte_rd_le)
  have c3: "length (rd c3) \<le> length (rd c2)" using v by (rule readValue_rd)
  have "c' = c1 \<or> c' = c2 \<or> c' = c3 \<or> rd c' = rd c3"
    using a k f v unfolding handlePut_def Let_def
    by (auto split: sum.splits prod.splits if_splits
        dest!: writeErr_rd writeNoop_rd writeOK_rd)
  with c1 c2 c3 show ?thesis by auto
qed

lemma handleRemove_rd: "handleRemove s c w = (x, c', w') \<Longrightarrow> length (rd c') \<le> length (rd c)"
proof -
  assume a: "handleRemove s c w = (x, c', w')"
  obtain k c1 where k: "readKey c = (k, c1)" by (cases "readKey c")
  have c1: "length (rd c1) \<le> length (rd c)" using k by (rule readKey_rd)
  have "rd c' = rd c1"
    using a k unfolding handleRemove_def
    by (auto split: sum.splits prod.splits if_splits
        dest!: writeErr_rd writeNoop_rd writeOK_rd)
  with c1 show ?thesis by simp
qed

lemma readRequest_rd: "readRequest c = (Inr t, c') \<Longrightarrow> length (rd c') < length (rd c)"
  unfolding readRequest_def
  by (auto split: prod.splits sum.splits dest!: readByte_rd)

lemma processRequest_rd:
  "processRequest order s c w = (Inr (stop, None), c', w') \<Longrightarrow> length (rd c') < length (rd c)"
proof -
  assume a: "processRequest order s c w = (Inr (stop, None), c', w')"
  obtain x c1 where r: "readRequest c = (x, c1)" by (cases "readRequest c")
  show ?thesis
  proof (cases x)
    case (Inl err)
    with a r show ?thesis by (simp add: processRequest_def)
  next
    case (Inr t)
    with r have lt: "length (rd c1) < length (rd c)" by (auto dest: readRequest_rd)
    obtain g cg wg where g: "handleGet order s c1 w = (g, cg, wg)"
      by (cases "handleGet order s c1 w")
    obtain p cp wp where p: "handlePut order s c1 w = (p, cp, wp)"
      by (cases "handlePut order s c1 w")
    obtain d cd wd where d: "handleRemove s c1 w = (d, cd, wd)"
      by (cases "handleRemove s c1 w")
    note le = handleGet_rd [OF g] handlePut_rd [OF p] handleRemove_rd [OF d]
    have "c' = cg \<or> c' = cp \<or> c' = cd \<or> rd c' = rd c1"
    proof (cases "t = requestGet")
      case True
      with a r Inr g show ?thesis
        by (auto simp: processRequest_def split: sum.splits option.splits)
    next
      case nget: False
      show ?thesis
      proof (cases "t = requestPut")
        case True
        with a r Inr p nget show ?thesis
          by (auto simp: processRequest_def split: sum.splits option.splits)
      next
        case nput: False
        show ?thesis
        proof (cases "t = requestRemove")
          case True
          with a r Inr d nget nput show ?thesis
            by (auto simp: processRequest_def split: sum.splits option.splits)
        next
          case nrem: False
          obtain e ce where e: "writeOK c1 = (e, ce)" by (cases "writeOK c1")
          obtain e' ce' where e': "writeErr (''unknown request type: 0x'' @ fmt_02x t) c1 = (e', ce')"
            by (cases "writeErr (''unknown request type: 0x'' @ fmt_02x t) c1")
          have "rd ce = rd c1" "rd ce' = rd c1"
            using e e' by (auto dest: writeOK_rd writeErr_rd)
          moreover have "c' = ce \<or> c' = ce'"
            using a r Inr nget nput nrem e e'
            by (auto simp: processRequest_def handleStop_def split: option.splits if_splits)
          ultimately show ?thesis by auto
        qed
      qed
    qed
    with le lt show ?thesis by auto
  qed
qed

text \<open>
  \<open>handleConnection\<close>: the greeting, then the request loop, on the connection, the
  storage state and the server. The result says how the connection ended; a panic in the
  handler's goroutine ends the process.
\<close>

datatype connEnd =
  GreetingFailed error | ClientDisconnected | RequestFailed error | StopRequested | Crashed panic

function handleConnection_loop ::
  "ByteOrder \<Rightarrow> 'w storage \<Rightarrow> conn \<times> 'w \<times> ipcServer \<Rightarrow> connEnd \<times> conn \<times> 'w \<times> ipcServer"
  where
  "handleConnection_loop order s (c, w, srv) =
     (case processRequest order s c w of
        (Inl p, c1, w1) \<Rightarrow> (Crashed p, c1, w1, srv)
      | (Inr (shouldStop, Some err), c1, w1) \<Rightarrow>
          (if err = EOF then ClientDisconnected else RequestFailed err, c1, w1, srv)
      | (Inr (shouldStop, None), c1, w1) \<Rightarrow>
          if shouldStop then (StopRequested, c1, w1, cancel srv)
          else handleConnection_loop order s (c1, w1, resetIdleTimer srv))"
  by pat_completeness auto
termination
  by (relation "measure (\<lambda>(order, s, c, w, srv). length (rd c))")
    (auto dest: processRequest_rd [OF sym])

definition handleConnection ::
  "ByteOrder \<Rightarrow> 'w storage \<Rightarrow> conn \<times> 'w \<times> ipcServer \<Rightarrow> connEnd \<times> conn \<times> 'w \<times> ipcServer"
  where
  "handleConnection order s st =
     (case st of (c, w, srv) \<Rightarrow>
        (case writeGreeting c of
           (Some err, c1) \<Rightarrow> (GreetingFailed err, c1, w, srv)
         | (None, c1) \<Rightarrow> handleConnection_loop order s (c1, w, srv)))"

section \<open>Facts about the layout\<close>

lemma length_EncodeToString: "length (EncodeToString key) = 2 * length key"
  by (induction key) simp_all

lemma keyToPath_flat: "keyToPath ''flat'' key = Inr (EncodeToString key)"
  by (simp add: keyToPath_def)

lemma keyToPath_bazel_long:
  "32 \<le> length key \<Longrightarrow>
   keyToPath ''bazel'' key = Inr (''ac/'' @ take 64 (EncodeToString key))"
  by (simp add: keyToPath_def sliceTo_def sha256HexSize_def length_EncodeToString)

lemma keyToPath_bazel_mid:
  "16 \<le> length key \<Longrightarrow> length key < 32 \<Longrightarrow>
   keyToPath ''bazel'' key =
     Inr (''ac/'' @ EncodeToString key @ take (64 - 2 * length key) (EncodeToString key))"
proof -
  assume "16 \<le> length key" and "length key < 32"
  moreover have "nat (2 * int (length key)) = 2 * length key"
    by linarith
  ultimately show ?thesis
    by (simp add: keyToPath_def sliceTo_def sha256HexSize_def length_EncodeToString
        nat_diff_distrib Let_def)
qed

lemma keyToPath_bazel_short:
  "length key < 16 \<Longrightarrow>
   keyToPath ''bazel'' key =
     Inl (SliceBoundsOutOfRange (64 - 2 * int (length key)) (2 * length key))"
  by (simp add: keyToPath_def sliceTo_def sha256HexSize_def length_EncodeToString)

lemma keyToPath_bazel_length:
  "16 \<le> length key \<Longrightarrow> \<exists>h. keyToPath ''bazel'' key = Inr (''ac/'' @ h) \<and> length h = 64"
proof (cases "32 \<le> length key")
  case True
  then show ?thesis
    by (simp add: keyToPath_bazel_long length_EncodeToString)
next
  case False
  assume "16 \<le> length key"
  with False show ?thesis
    by (simp add: keyToPath_bazel_mid length_EncodeToString)
qed

text \<open>
  C1. In the \<open>bazel\<close> layout the path is meant to be \<open>ac/\<close> followed by 64 hex characters
  for every key, short keys being padded with their own leading hex characters. For the
  one-byte key \<open>0xAB\<close> the padding slice \<open>keyHex[:62]\<close> is taken of a two-character
  string: the call panics and returns no path.
\<close>

theorem keyToPath_bazel_one_byte_key_panics:
  "keyToPath ''bazel'' [0xAB] = Inl (SliceBoundsOutOfRange 62 2)"
  by (simp add: keyToPath_def sliceTo_def sha256HexSize_def)

text \<open>
  C8. keyToPath is meant to return a string for every key of at most 255 bytes in every
  layout. In the \<open>bazel\<close> layout the empty key (length 0, within the bound) makes the
  padding slice \<open>keyHex[:64]\<close> of the empty string: the call panics.
\<close>

theorem keyToPath_bazel_empty_key_panics:
  "keyToPath ''bazel'' [] = Inl (SliceBoundsOutOfRange 64 0)"
  by (simp add: keyToPath_def sliceTo_def sha256HexSize_def)

text \<open>
  C10. Every layout string other than \<open>"flat"\<close> and \<open>"bazel"\<close> falls to the
  \<open>default\<close> case: the hex encoding unchanged when it is shorter than 2 characters,
  otherwise its first two characters, a slash and the rest; the result is never a panic.
\<close>

theorem keyToPath_default_is_subdirs:
  "lay \<noteq> ''flat'' \<Longrightarrow> lay \<noteq> ''bazel'' \<Longrightarrow>
   keyToPath lay key =
     Inr (if length (EncodeToString key) < 2 then EncodeToString key
          else take 2 (EncodeToString key) @ ''/'' @ drop 2 (EncodeToString key))"
  by (simp add: keyToPath_def sliceTo_def sliceFrom_def Let_def)

theorem keyToPath_default_is_subdirs_witness:
  "''lmdb'' \<noteq> ''flat'' \<and> ''lmdb'' \<noteq> ''bazel'' \<and>
   keyToPath ''lmdb'' [0xAB, 0xCD] = Inr ''ab/cd'' \<and>
   keyToPath ''lmdb'' [] = Inr ''''"
  using keyToPath_default_is_subdirs [of "''lmdb''" "[0xAB, 0xCD]"]
    keyToPath_default_is_subdirs [of "''lmdb''" "[]"]
  by (simp add: hextable_def)

section \<open>Facts about the codec\<close>

lemma byte_char_roundtrip: "char_of_byte (byte_of_char c) = c"
  by (simp add: byte_of_char_def char_of_byte_def unat_of_nat)

lemma unat_of_nat_byte: "unat (of_nat v :: byte) = v mod 256"
  by (simp add: unat_of_nat)

lemma length_le_bytes: "length (le_bytes k v) = k"
  by (induction k arbitrary: v) simp_all

lemma ReadFull_append:
  "length bs = n \<Longrightarrow> ReadFull n (r\<lparr>rd := bs @ rest\<rparr>) = (Inr bs, r\<lparr>rd := rest\<rparr>)"
  by (simp add: ReadFull_def)

lemma readByte_Cons: "readByte (r\<lparr>rd := b # rest\<rparr>) = (Inr b, r\<lparr>rd := rest\<rparr>)"
  by (simp add: readByte_def ReadFull_def)

lemma Write_unlimited: "wcap w = None \<Longrightarrow> Write p w = (None, w\<lparr>wr := wr w @ p\<rparr>)"
  by (simp add: Write_def)

lemma le_value_le_bytes: "le_value (le_bytes k v) = v mod 256 ^ k"
proof (induction k arbitrary: v)
  case 0
  show ?case by simp
next
  case (Suc k)
  have "le_value (le_bytes (Suc k) v) = v mod 256 + 256 * (v div 256 mod 256 ^ k)"
    by (simp add: Suc unat_of_nat_byte)
  also have "\<dots> = v mod (256 * 256 ^ k)"
    by (simp only: mod_mult2_eq add.commute)
  finally show ?case by simp
qed

lemma Uint64_PutUint64: "Uint64 order (PutUint64 order v) = v"
proof -
  have "unat v < 2 ^ 64" using unsigned_less [of v] by simp
  then have "unat v mod 256 ^ 8 = unat v" by simp
  then show ?thesis
    by (cases order) (simp_all add: Uint64_def PutUint64_def le_value_le_bytes)
qed

lemma length_PutUint64: "length (PutUint64 order v) = 8"
  by (cases order) (simp_all add: PutUint64_def length_le_bytes)

lemma unat_length_64: "length v \<le> maxAlloc \<Longrightarrow> unat (of_nat (length v) :: 64 word) = length v"
  by (simp add: maxAlloc_def unat_of_nat)

lemma unat_length_8: "length v \<le> 255 \<Longrightarrow> unat (of_nat (length v) :: byte) = length v"
  by (simp add: unat_of_nat)

lemma readValue_encoded:
  assumes "length v \<le> maxAlloc"
  shows "readValue order (r\<lparr>rd := PutUint64 order (of_nat (length v)) @ v @ rest\<rparr>)
           = (Inr (Inr v), r\<lparr>rd := rest\<rparr>)"
proof -
  have "ReadFull 8 (r\<lparr>rd := PutUint64 order (of_nat (length v)) @ (v @ rest)\<rparr>)
          = (Inr (PutUint64 order (of_nat (length v))), r\<lparr>rd := v @ rest\<rparr>)"
    by (rule ReadFull_append) (rule length_PutUint64)
  moreover have "makeBytes (of_nat (length v)) = Inr (length v)"
    using assms by (simp add: makeBytes_def unat_length_64)
  moreover have "ReadFull (length v) (r\<lparr>rd := v @ rest\<rparr>) = (Inr v, r\<lparr>rd := rest\<rparr>)"
    by (rule ReadFull_append) simp
  ultimately show ?thesis
    by (simp add: readValue_def Uint64_PutUint64)
qed

lemma writeValue_unlimited:
  "wcap w = None \<Longrightarrow>
   writeValue order v w = (None, w\<lparr>wr := wr w @ PutUint64 order (of_nat (length v)) @ v\<rparr>)"
  by (simp add: writeValue_def Write_def)

lemma readKey_encoded:
  assumes "length key \<le> 255"
  shows "readKey (r\<lparr>rd := encodeKey key @ rest\<rparr>) = (Inr key, r\<lparr>rd := rest\<rparr>)"
proof -
  have "ReadFull (length key) (r\<lparr>rd := key @ rest\<rparr>) = (Inr key, r\<lparr>rd := rest\<rparr>)"
    by (rule ReadFull_append) simp
  with assms show ?thesis
    by (simp add: readKey_def encodeKey_def readByte_Cons unat_length_8)
qed

lemma writeMsg_unlimited:
  "wcap w = None \<Longrightarrow> length msg \<le> 255 \<Longrightarrow>
   writeMsg msg w = (None, w\<lparr>wr := wr w @ of_nat (length msg) # map byte_of_char msg\<rparr>)"
  by (simp add: writeMsg_def writeByte_def Write_def)

lemma readMsg_encoded:
  assumes "length msg \<le> 255"
  shows "readMsg (r\<lparr>rd := of_nat (length msg) # map byte_of_char msg @ rest\<rparr>)
           = (Inr msg, r\<lparr>rd := rest\<rparr>)"
proof -
  have "ReadFull (length msg) (r\<lparr>rd := map byte_of_char msg @ rest\<rparr>)
          = (Inr (map byte_of_char msg), r\<lparr>rd := rest\<rparr>)"
    by (rule ReadFull_append) simp
  moreover have "map char_of_byte (map byte_of_char msg) = msg"
    by (simp add: byte_char_roundtrip comp_def)
  ultimately show ?thesis
    using assms by (simp add: readMsg_def readByte_Cons unat_length_8)
qed

lemma written_append: "written w (w\<lparr>wr := wr w @ p\<rparr>) = p"
  by (simp add: written_def)

text \<open>
  C6. Decoding what the encoder wrote gives back the original, and leaves the rest of the
  stream untouched: \<open>readValue\<close> after \<open>writeValue\<close> for a value of any length a slice can
  have (0 included), in either byte order; \<open>readKey\<close> after the wire encoding of a key of
  0 to 255 bytes; \<open>readMsg\<close> after \<open>writeMsg\<close> for a message of at most 255 bytes. The
  writer is one whose writes do not fail.
\<close>

theorem codec_roundtrip:
  assumes "wcap w = None"
  shows "(length v \<le> maxAlloc \<longrightarrow>
            fst (writeValue order v w) = None \<and>
            readValue order (r\<lparr>rd := written w (snd (writeValue order v w)) @ rest\<rparr>)
              = (Inr (Inr v), r\<lparr>rd := rest\<rparr>)) \<and>
         (length key \<le> 255 \<longrightarrow>
            readKey (r\<lparr>rd := encodeKey key @ rest\<rparr>) = (Inr key, r\<lparr>rd := rest\<rparr>)) \<and>
         (length msg \<le> 255 \<longrightarrow>
            fst (writeMsg msg w) = None \<and>
            readMsg (r\<lparr>rd := written w (snd (writeMsg msg w)) @ rest\<rparr>)
              = (Inr msg, r\<lparr>rd := rest\<rparr>))"
proof (intro conjI impI)
  show "fst (writeValue order v w) = None"
    by (simp add: writeValue_unlimited [OF assms])
next
  assume "length v \<le> maxAlloc"
  then show "readValue order (r\<lparr>rd := written w (snd (writeValue order v w)) @ rest\<rparr>)
      = (Inr (Inr v), r\<lparr>rd := rest\<rparr>)"
    by (simp only: writeValue_unlimited [OF assms] snd_conv written_append append_assoc
        readValue_encoded)
next
  assume "length key \<le> 255"
  then show "readKey (r\<lparr>rd := encodeKey key @ rest\<rparr>) = (Inr key, r\<lparr>rd := rest\<rparr>)"
    by (rule readKey_encoded)
next
  assume "length msg \<le> 255"
  then show "fst (writeMsg msg w) = None"
    by (simp add: writeMsg_unlimited [OF assms])
next
  assume len: "length msg \<le> 255"
  show "readMsg (r\<lparr>rd := written w (snd (writeMsg msg w)) @ rest\<rparr>)
      = (Inr msg, r\<lparr>rd := rest\<rparr>)"
    by (simp only: writeMsg_unlimited [OF assms len] snd_conv written_append append_Cons
        readMsg_encoded [OF len])
qed

theorem codec_roundtrip_witness:
  "wcap pipe = None \<and> length [0xAA, 0xBB :: byte] \<le> maxAlloc \<and>
   length [0x01 :: byte] \<le> 255 \<and> length ''hi'' \<le> 255 \<and>
   fst (writeValue LittleEndian [0xAA, 0xBB] pipe) = None \<and>
   readValue LittleEndian
       (pipe\<lparr>rd := written pipe (snd (writeValue LittleEndian [0xAA, 0xBB] pipe)) @ [0x07]\<rparr>)
     = (Inr (Inr [0xAA, 0xBB]), pipe\<lparr>rd := [0x07]\<rparr>) \<and>
   readKey (pipe\<lparr>rd := encodeKey [0x01] @ [0x07]\<rparr>) = (Inr [0x01], pipe\<lparr>rd := [0x07]\<rparr>) \<and>
   fst (writeMsg ''hi'' pipe) = None \<and>
   readMsg (pipe\<lparr>rd := written pipe (snd (writeMsg ''hi'' pipe)) @ [0x07]\<rparr>)
     = (Inr ''hi'', pipe\<lparr>rd := [0x07]\<rparr>)"
proof -
  have w: "wcap pipe = None" by (simp add: pipe_def)
  have l: "length [0xAA, 0xBB :: byte] \<le> maxAlloc" "length [0x01 :: byte] \<le> 255"
    "length ''hi'' \<le> 255"
    by (simp_all add: maxAlloc_def)
  show ?thesis
    using w l codec_roundtrip [OF w, where v = "[0xAA, 0xBB]" and order = LittleEndian
        and r = pipe and rest = "[0x07]" and key = "[0x01]" and msg = "''hi''"]
    by blast
qed

lemma le_bytes_8:
  "le_bytes 8 v = [of_nat v, of_nat (v div 256), of_nat (v div 256 div 256),
     of_nat (v div 256 div 256 div 256), of_nat (v div 256 div 256 div 256 div 256),
     of_nat (v div 256 div 256 div 256 div 256 div 256),
     of_nat (v div 256 div 256 div 256 div 256 div 256 div 256),
     of_nat (v div 256 div 256 div 256 div 256 div 256 div 256 div 256)]"
proof -
  have "(8::nat) = Suc (Suc (Suc (Suc (Suc (Suc (Suc (Suc 0)))))))" by simp
  then show ?thesis by (simp only: le_bytes.simps)
qed

text \<open>On the wire: the length of a two-byte value in each byte order, then the value.\<close>

lemma writeValue_wire_example:
  "written pipe (snd (writeValue LittleEndian [0xAA, 0xBB] pipe))
     = [2, 0, 0, 0, 0, 0, 0, 0, 0xAA, 0xBB] \<and>
   written pipe (snd (writeValue BigEndian [0xAA, 0xBB] pipe))
     = [0, 0, 0, 0, 0, 0, 0, 2, 0xAA, 0xBB]"
  by (simp add: writeValue_def Write_def pipe_def PutUint64_def written_def le_bytes_8)

section \<open>Facts about the idle timer\<close>

lemma resetIdleTimer_zero: "IdleTimeout s = 0 \<Longrightarrow> resetIdleTimer s = s"
  by (simp add: resetIdleTimer_def)

lemma expire_no_timers: "timers s = [] \<Longrightarrow> expire t s = s"
  by (simp add: expire_def)

lemma step_no_timer:
  assumes "IdleTimeout s = 0" and "timers s = []" and "idleTimer s = None"
  shows "IdleTimeout (step e s) = 0 \<and> timers (step e s) = [] \<and> idleTimer (step e s) = None \<and>
         cancelled (step e s) = (cancelled s \<or> e = StopRequest)"
  using assms by (cases e) (simp_all add: resetIdleTimer_zero expire_no_timers cancel_def)

lemma fold_step_no_timer:
  "IdleTimeout s = 0 \<Longrightarrow> timers s = [] \<Longrightarrow> idleTimer s = None \<Longrightarrow>
   timers (fold step evs s) = [] \<and> idleTimer (fold step evs s) = None \<and>
   cancelled (fold step evs s) = (cancelled s \<or> StopRequest \<in> set evs)"
proof (induction evs arbitrary: s)
  case Nil
  then show ?case by simp
next
  case (Cons e evs)
  have st: "IdleTimeout (step e s) = 0" "timers (step e s) = []" "idleTimer (step e s) = None"
    "cancelled (step e s) = (cancelled s \<or> e = StopRequest)"
    using step_no_timer [OF Cons.prems] by simp_all
  show ?case
    using Cons.IH [OF st(1-3)] st(4) by auto
qed

text \<open>
  C7. With an idle timeout of zero the idle timer is never created: \<open>resetIdleTimer\<close>
  leaves the server as it is, so after any run of events no timer has been allocated or
  armed and \<open>idleTimer\<close> is still \<open>nil\<close>; and the server is cancelled exactly when a stop
  request was processed.
\<close>

theorem idle_timeout_zero_no_timer:
  "(IdleTimeout s = 0 \<longrightarrow> resetIdleTimer s = s) \<and>
   idleTimer (run 0 evs) = None \<and> timers (run 0 evs) = [] \<and>
   cancelled (run 0 evs) = (StopRequest \<in> set evs)"
proof -
  have "resetIdleTimer (newServer 0) = newServer 0"
    by (simp add: resetIdleTimer_zero newServer_def)
  then have "run 0 evs = fold step evs (newServer 0)"
    by (simp add: run_def)
  moreover have "timers (fold step evs (newServer 0)) = [] \<and>
      idleTimer (fold step evs (newServer 0)) = None \<and>
      cancelled (fold step evs (newServer 0))
        = (cancelled (newServer 0) \<or> StopRequest \<in> set evs)"
    by (rule fold_step_no_timer) (simp_all add: newServer_def)
  ultimately show ?thesis
    by (simp add: resetIdleTimer_zero newServer_def)
qed

theorem idle_timeout_zero_no_timer_witness:
  "IdleTimeout (newServer 0) = 0 \<and> resetIdleTimer (newServer 0) = newServer 0 \<and>
   idleTimer (run 0 [Accepted, Processed, Elapsed 0]) = None \<and>
   timers (run 0 [Accepted, Processed, Elapsed 0]) = [] \<and>
   \<not> cancelled (run 0 [Accepted, Processed, Elapsed 0]) \<and>
   cancelled (run 0 [Accepted, Processed, StopRequest])"
  using idle_timeout_zero_no_timer [of "newServer 0" "[Accepted, Processed, Elapsed 0]"]
    idle_timeout_zero_no_timer [of "newServer 0" "[Accepted, Processed, StopRequest]"]
  by (simp add: newServer_def)

text \<open>With a nonzero timeout every reset stops the old timer and arms a new one.\<close>

lemma run_nonzero_example:
  "timers (run 5 [Accepted, Elapsed 1]) = [Stopped, Fired] \<and> cancelled (run 5 [Accepted, Elapsed 1])"
  by (simp add: run_def newServer_def resetIdleTimer_def AfterFunc_def Stop_def expire_def cancel_def)

section \<open>Facts about the dispatcher\<close>

lemma fmt_02x_hex: "fmt_02x b = EncodeToString [b]"
  by (simp add: fmt_02x_def)






section \<open>Facts about the storage adapter\<close>

lemma Do_RoundTrip:
  "RoundTrip env req (backend w) = (res, b') \<Longrightarrow>
   Do env req w = (res, \<lparr>backend = b', sent = sent w @ [req]\<rparr>)"
  by (simp add: Do_def)

lemma get_answered:
  assumes "buildURL env s key = Inr urlStr"
    and "NewRequest env ''GET'' urlStr [] = Inr req"
    and "RoundTrip env (addHeaders env s req) (backend w) = (Inr resp, b')"
  shows "get env s key w =
     (if StatusCode resp = 404 then Inr (Inr ([], False))
      else if StatusCode resp \<noteq> 200 then Inr (Inl (HTTPError (StatusCode resp)))
      else (case Body resp of Inl err \<Rightarrow> Inr (Inl err) | Inr v \<Rightarrow> Inr (Inr (v, True))),
      \<lparr>backend = b', sent = sent w @ [addHeaders env s req]\<rparr>)"
  using assms(1,2) Do_RoundTrip [OF assms(3)]
  by (simp add: get_def StatusOK_def StatusNotFound_def split: sum.split)

text \<open>
  C2. When the backend answers a GET, \<open>get\<close> maps status 404 to not-found without
  error, every other status except 200 to an error that carries the status code, and
  status 200 to success with the whole body as the value (or to the error of reading the
  body). Only 200 counts as success: the check is \<open>resp.StatusCode != http.StatusOK\<close>.
\<close>

theorem get_status_mapping:
  assumes "buildURL env s key = Inr urlStr"
    and "NewRequest env ''GET'' urlStr [] = Inr req"
    and "RoundTrip env (addHeaders env s req) (backend w) = (Inr resp, b')"
  shows "(StatusCode resp = 404 \<longrightarrow> fst (get env s key w) = Inr (Inr ([], False))) \<and>
         (StatusCode resp \<noteq> 404 \<and> StatusCode resp \<noteq> 200 \<longrightarrow>
            fst (get env s key w) = Inr (Inl (HTTPError (StatusCode resp)))) \<and>
         (StatusCode resp = 200 \<longrightarrow>
            fst (get env s key w) =
              (case Body resp of Inl err \<Rightarrow> Inr (Inl err) | Inr v \<Rightarrow> Inr (Inr (v, True))))"
  by (simp add: get_answered [OF assms])

lemma example_buildURL:
  "buildURL scriptedEnv exampleClient [0xAB, 0xCD] = Inr ''http://h/cache/ab/cd''"
  by (simp add: buildURL_def scriptedEnv_def exampleClient_def keyToPath_def sliceTo_def
      sliceFrom_def HasSuffix_def hextable_def Let_def)

lemma example_NewRequest:
  "NewRequest scriptedEnv m u b = Inr \<lparr>Method = m, URL = u, Header = Map.empty, ReqBody = b\<rparr>"
  by (simp add: NewRequest_def scriptedEnv_def)

lemma example_RoundTrip:
  "RoundTrip scriptedEnv req (resp # rest) = (Inr resp, rest)"
  by (simp add: scriptedEnv_def)

theorem get_status_mapping_witness:
  "fst (get scriptedEnv exampleClient [0xAB, 0xCD]
          \<lparr>backend = [\<lparr>StatusCode = 404, Body = Inr []\<rparr>], sent = []\<rparr>)
     = Inr (Inr ([], False)) \<and>
   fst (get scriptedEnv exampleClient [0xAB, 0xCD]
          \<lparr>backend = [\<lparr>StatusCode = 500, Body = Inr []\<rparr>], sent = []\<rparr>)
     = Inr (Inl (HTTPError 500)) \<and>
   fst (get scriptedEnv exampleClient [0xAB, 0xCD]
          \<lparr>backend = [\<lparr>StatusCode = 200, Body = Inr [0x78]\<rparr>], sent = []\<rparr>)
     = Inr (Inr ([0x78], True))"
proof -
  note g = get_status_mapping [OF example_buildURL example_NewRequest]
  show ?thesis
    using g [of "\<lparr>backend = [\<lparr>StatusCode = 404, Body = Inr []\<rparr>], sent = []\<rparr>"
          "\<lparr>StatusCode = 404, Body = Inr []\<rparr>" "[]"]
      g [of "\<lparr>backend = [\<lparr>StatusCode = 500, Body = Inr []\<rparr>], sent = []\<rparr>"
          "\<lparr>StatusCode = 500, Body = Inr []\<rparr>" "[]"]
      g [of "\<lparr>backend = [\<lparr>StatusCode = 200, Body = Inr [0x78]\<rparr>], sent = []\<rparr>"
          "\<lparr>StatusCode = 200, Body = Inr [0x78]\<rparr>" "[]"]
    by (simp add: example_RoundTrip)
qed

text \<open>
  A 2xx status other than 200 is an error for \<open>get\<close>: a 203 answer with a body gives
  \<open>HTTP 203\<close>, not the body.
\<close>

theorem get_other_2xx_is_error:
  "fst (get scriptedEnv exampleClient [0xAB, 0xCD]
          \<lparr>backend = [\<lparr>StatusCode = 203, Body = Inr [0x78]\<rparr>], sent = []\<rparr>)
     = Inr (Inl (HTTPError 203)) \<and>
   Error (HTTPError 203) = ''HTTP 203''"
proof -
  have "fst (get scriptedEnv exampleClient [0xAB, 0xCD]
          \<lparr>backend = [\<lparr>StatusCode = 203, Body = Inr [0x78]\<rparr>], sent = []\<rparr>)
     = Inr (Inl (HTTPError 203))"
    using get_answered [OF example_buildURL example_NewRequest,
        of "\<lparr>backend = [\<lparr>StatusCode = 203, Body = Inr [0x78]\<rparr>], sent = []\<rparr>"
          "\<lparr>StatusCode = 203, Body = Inr [0x78]\<rparr>" "[]"]
    by (simp add: example_RoundTrip)
  moreover have "digits 203 = ''203''" by code_simp
  ultimately show ?thesis by (simp add: fmt_d_def)
qed












































end
